theory Spec2Isabelle
  imports Main "HOL-Library.Sublist"
begin

section \<open>Data model of the crawl engine\<close>

text \<open>
  Strings are lists of characters with codes below 256. \<open>startsWith\<close> is
  \<^const>\<open>prefix\<close>. The platform services the engine consumes as black boxes (regular
  expressions, the URL constructor, the HTTP transport and the HTML parser) are parameters
  of the model.
\<close>

datatype LinkState = OK | BROKEN | SKIPPED

record LinkResult =
  url :: string
  status :: "int option"
  state :: LinkState
  parent :: "string option"

record CheckOptions =
  concurrency :: "nat option"
  port :: "nat option"
  path :: string
  recurse :: "bool option"
  linksToSkip :: "string list option"

text \<open>The three fields of \<open>CrawlOptions\<close> that belong to one task; the shared
  \<open>results\<close>, \<open>cache\<close>, \<open>checkOptions\<close> and \<open>queue\<close> live in the run state below.\<close>

record CrawlOptions =
  c_url :: string
  c_parent :: "string option"
  c_crawl :: bool

datatype Method = GET | HEAD

datatype ResponseType = Text | Stream

record Request =
  req_method :: Method
  req_url :: string
  responseType :: ResponseType

record Response =
  res_status :: int
  content_type :: "string option"
  res_data :: string

text \<open>What the engine reads of a parsed \<open>URL\<close> object: its host, and its \<open>href\<close> as the part
  before the fragment followed by the fragment.\<close>

record URL =
  host :: string
  before_hash :: string
  hash :: string

definition href :: "URL \<Rightarrow> string" where
  "href u = before_hash u @ hash u"

datatype Event = Link LinkResult | PageStart string

text \<open>A task suspended at one of the two \<open>await\<close>s of \<open>crawl\<close>.\<close>

datatype Phase = First | Retry

text \<open>\<open>re_test pat u\<close> stands for \<open>new RegExp(pat).test(u)\<close>, \<open>None\<close> when the constructor
  throws because \<open>pat\<close> is no regular expression; \<open>new_URL u\<close> for \<open>new URL(u)\<close>, \<open>None\<close>
  when it throws; \<open>get_links data url\<close> for the call \<open>getLinks(data, url)\<close> of the engine,
  whose result the engine handles as an array of strings, \<open>None\<close> when the call throws.\<close>

record Platform =
  re_test :: "string \<Rightarrow> string \<Rightarrow> bool option"
  new_URL :: "string \<Rightarrow> URL option"
  get_links :: "string \<Rightarrow> string \<Rightarrow> string list option"

record Run =
  checkOptions :: CheckOptions
  queue :: "CrawlOptions list"
  pending :: "(CrawlOptions \<times> Phase) list"
  cache :: "string set"
  results :: "LinkResult list"
  requests :: "Request list"
  events :: "Event list"

section \<open>The engine\<close>

fun contains :: "string \<Rightarrow> string \<Rightarrow> bool" where
  "contains sub [] = (sub = [])"
| "contains sub (c # cs) = (prefix sub (c # cs) \<or> contains sub cs)"

definition isHtml :: "Response \<Rightarrow> bool" where
  "isHtml response =
    (let contentType = (case content_type response of Some c \<Rightarrow> c | None \<Rightarrow> [])
     in contains ''text/html'' contentType \<or> contains ''application/xhtml+xml'' contentType)"

definition request_first :: "CrawlOptions \<Rightarrow> Request" where
  "request_first opts =
    \<lparr>req_method = (if c_crawl opts then GET else HEAD), req_url = c_url opts,
     responseType = (if c_crawl opts then Text else Stream)\<rparr>"

definition request_retry :: "CrawlOptions \<Rightarrow> Request" where
  "request_retry opts = \<lparr>req_method = GET, req_url = c_url opts, responseType = Stream\<rparr>"

text \<open>A test mapped over the patterns: the first pattern the constructor rejects ends the
  \<open>map\<close> with its exception.\<close>

fun tests :: "(string \<Rightarrow> bool option) \<Rightarrow> string list \<Rightarrow> bool list option" where
  "tests t [] = Some []"
| "tests t (p # ps) =
    (case t p of
       None \<Rightarrow> None
     | Some m \<Rightarrow> (case tests t ps of None \<Rightarrow> None | Some ms \<Rightarrow> Some (m # ms)))"

definition skips :: "Platform \<Rightarrow> string list \<Rightarrow> string \<Rightarrow> bool list option" where
  "skips plat pats u =
    map_option (filter (\<lambda>m. m)) (tests (\<lambda>linkToSkip. re_test plat linkToSkip u) pats)"

definition emit_result :: "LinkResult \<Rightarrow> Run \<Rightarrow> Run" where
  "emit_result r s = s\<lparr>results := results s @ [r], events := events s @ [Link r]\<rparr>"

text \<open>The synchronous head of \<open>crawl\<close>, up to the first \<open>await\<close>: the cache test and
  insertion, the skip test, and the dispatch of the first request. A missing
  \<open>linksToSkip\<close>, or a pattern that is no regular expression, makes the source throw
  after the cache insertion: the task ends there.\<close>

definition crawl_start :: "Platform \<Rightarrow> Run \<Rightarrow> CrawlOptions \<Rightarrow> Run" where
  "crawl_start plat s opts =
    (if c_url opts \<in> cache s then s
     else
       let s1 = s\<lparr>cache := insert (c_url opts) (cache s)\<rparr> in
       (case linksToSkip (checkOptions s1) of
          None \<Rightarrow> s1
        | Some pats \<Rightarrow>
            (case skips plat pats (c_url opts) of
               None \<Rightarrow> s1
             | Some ms \<Rightarrow>
                 if length ms > 0
                 then emit_result \<lparr>url = c_url opts, status = None, state = SKIPPED,
                                   parent = c_parent opts\<rparr> s1
                 else s1\<lparr>requests := requests s1 @ [request_first opts],
                         pending := pending s1 @ [(opts, First)]\<rparr>)))"

text \<open>The decision computed for each discovered link in the loop of \<open>crawl\<close>.\<close>

definition should_crawl :: "Platform \<Rightarrow> CheckOptions \<Rightarrow> string \<Rightarrow> bool" where
  "should_crawl plat co u =
    (let crawl = (recurse co = Some True \<and> prefix (path co) u) in
     if crawl then
       (case new_URL plat u of
          None \<Rightarrow> crawl
        | Some parsedUrl \<Rightarrow>
            (case new_URL plat (path co) of
               None \<Rightarrow> crawl
             | Some pathUrl \<Rightarrow> crawl \<and> host parsedUrl = host pathUrl))
     else crawl)"

definition child :: "Platform \<Rightarrow> CheckOptions \<Rightarrow> string \<Rightarrow> string \<Rightarrow> CrawlOptions" where
  "child plat co page u =
    \<lparr>c_url = u, c_parent = Some page, c_crawl = should_crawl plat co u\<rparr>"

definition status_of :: "Response option \<Rightarrow> int" where
  "status_of outcome = (case outcome of None \<Rightarrow> 0 | Some res \<Rightarrow> res_status res)"

definition state_of :: "Response option \<Rightarrow> LinkState" where
  "state_of outcome =
    (case outcome of
       None \<Rightarrow> BROKEN
     | Some res \<Rightarrow> if res_status res \<ge> 200 \<and> res_status res < 300 then OK else BROKEN)"

definition data_of :: "Response option \<Rightarrow> string" where
  "data_of outcome = (case outcome of None \<Rightarrow> [] | Some res \<Rightarrow> res_data res)"

definition shouldRecurse_of :: "Response option \<Rightarrow> bool" where
  "shouldRecurse_of outcome = (case outcome of None \<Rightarrow> False | Some res \<Rightarrow> isHtml res)"

text \<open>The tail of \<open>crawl\<close> after the \<open>try\<close> block. \<open>outcome\<close> is the response the block
  ended with, or \<open>None\<close> when a request threw. When the link extractor throws, the task
  ends after the \<open>pagestart\<close> event.\<close>

definition crawl_finish :: "Platform \<Rightarrow> Run \<Rightarrow> CrawlOptions \<Rightarrow> Response option \<Rightarrow> Run" where
  "crawl_finish plat s opts outcome =
    (let result = \<lparr>url = c_url opts, status = Some (status_of outcome),
                   state = state_of outcome, parent = c_parent opts\<rparr>;
         s1 = emit_result result s
     in
       if c_crawl opts \<and> shouldRecurse_of outcome then
         (let s2 = s1\<lparr>events := events s1 @ [PageStart (c_url opts)]\<rparr> in
          case get_links plat (data_of outcome) (c_url opts) of
            None \<Rightarrow> s2
          | Some urls \<Rightarrow>
              s2\<lparr>queue := queue s2 @ map (child plat (checkOptions s2) (c_url opts)) urls\<rparr>)
       else s1)"

text \<open>A suspended task resumes with the outcome of the request it awaited.\<close>

definition crawl_response ::
  "Platform \<Rightarrow> Run \<Rightarrow> CrawlOptions \<Rightarrow> Phase \<Rightarrow> Response option \<Rightarrow> Run" where
  "crawl_response plat s opts ph outcome =
    (case ph of
       First \<Rightarrow>
         (case outcome of
            None \<Rightarrow> crawl_finish plat s opts None
          | Some res \<Rightarrow>
              if res_status res = 405
              then s\<lparr>requests := requests s @ [request_retry opts],
                     pending := pending s @ [(opts, Retry)]\<rparr>
              else crawl_finish plat s opts (Some res))
     | Retry \<Rightarrow> crawl_finish plat s opts outcome)"

definition limit :: "CheckOptions \<Rightarrow> nat" where
  "limit co = (case concurrency co of None \<Rightarrow> 100 | Some n \<Rightarrow> if n = 0 then 100 else n)"

text \<open>One scheduling step of a run: the queue starts its oldest task when a slot is free,
  or the transport answers one of the suspended tasks, with any outcome.\<close>

inductive step :: "Platform \<Rightarrow> Run \<Rightarrow> Run \<Rightarrow> bool" for plat :: Platform where
  start:
    "queue s = opts # rest \<Longrightarrow> length (pending s) < limit (checkOptions s) \<Longrightarrow>
     step plat s (crawl_start plat (s\<lparr>queue := rest\<rparr>) opts)"
| response:
    "pending s = before @ (opts, ph) # after \<Longrightarrow>
     step plat s (crawl_response plat (s\<lparr>pending := before @ after\<rparr>) opts ph outcome)"

definition seed :: "CheckOptions \<Rightarrow> Run" where
  "seed co =
    \<lparr>checkOptions = co,
     queue = [\<lparr>c_url = path co, c_parent = None, c_crawl = True\<rparr>],
     pending = [], cache = {}, results = [], requests = [], events = []\<rparr>"

inductive reachable :: "Platform \<Rightarrow> CheckOptions \<Rightarrow> Run \<Rightarrow> bool"
  for plat :: Platform and co :: CheckOptions where
  seeded: "reachable plat co (seed co)"
| stepped: "reachable plat co s \<Longrightarrow> step plat s s' \<Longrightarrow> reachable plat co s'"

text \<open>The report \<open>check\<close> returns once the queue is idle.\<close>

record CrawlResult =
  passed :: bool
  links :: "LinkResult list"

definition report :: "Run \<Rightarrow> CrawlResult" where
  "report s =
    \<lparr>passed = (length (filter (\<lambda>x. state x = BROKEN) (results s)) = 0),
     links = results s\<rparr>"

section \<open>The head of \<open>check\<close>\<close>

datatype error = TypeError | InvalidURL | ListenError

definition digit :: "nat \<Rightarrow> char" where
  "digit d = ''0123456789'' ! d"

fun decimal :: "nat \<Rightarrow> string" where
  "decimal n = (if n < 10 then [digit n] else decimal (n div 10) @ [digit (n mod 10)])"

declare decimal.simps [simp del]

definition builtin_skips :: "string list" where
  "builtin_skips = [''^mailto:'', ''^irc:'', ''^data:'']"

text \<open>\<open>check\<close> rewrites the options object it is given before it seeds the queue.
  \<open>rnd\<close> stands for \<open>Math.round(Math.random() * 1000)\<close> and \<open>listens\<close> tells whether
  the local web server could be started; a port of 0 counts as absent.\<close>

definition check_setup :: "nat \<Rightarrow> bool \<Rightarrow> CheckOptions \<Rightarrow> error + CheckOptions" where
  "check_setup rnd listens options =
    (let o1 = options\<lparr>linksToSkip :=
                 Some ((case linksToSkip options of None \<Rightarrow> [] | Some l \<Rightarrow> l) @ builtin_skips)\<rparr>
     in
       if \<not> prefix ''http'' (path o1) then
         (let p = (case port o1 of
                     None \<Rightarrow> 5000 + rnd
                   | Some n \<Rightarrow> if n = 0 then 5000 + rnd else n)
          in if listens then Inr (o1\<lparr>path := ''http://localhost:'' @ decimal p\<rparr>)
             else Inl ListenError)
       else Inr o1)"

section \<open>The link extractor\<close>

type_synonym AttributeRules = "(string \<times> string list) list"

definition getBaseLinkAttributes :: AttributeRules where
  "getBaseLinkAttributes =
    [(''background'', [''body'']),
     (''cite'', [''blockquote'', ''del'', ''ins'', ''q'']),
     (''data'', [''object'']),
     (''href'', [''a'', ''area'', ''embed'', ''link'']),
     (''icon'', [''command'']),
     (''longdesc'', [''frame'', ''iframe'']),
     (''manifest'', [''html'']),
     (''poster'', [''video'']),
     (''pluginspage'', [''embed'']),
     (''pluginurl'', [''embed'']),
     (''src'', [''audio'', ''embed'', ''frame'', ''iframe'', ''img'', ''input'', ''script'',
               ''source'', ''track'', ''video'']),
     (''srcset'', [''img'', ''source'']),
     (''style'', [[]])]"

record ParsedUrl =
  link :: string
  parse_error :: "error option"
  parsed_url :: "URL option"

text \<open>A loaded document, as far as \<open>getLinks\<close> queries it: the values of an attribute on
  the elements with one of the given tags, in document order, and the \<open>href\<close> values of the
  \<open>base\<close> elements.\<close>

record Document =
  attribs :: "string \<Rightarrow> string list \<Rightarrow> string list"
  base_hrefs :: "string list"

text \<open>\<open>String.split\<close> with a one-character separator.\<close>

fun split_on :: "char \<Rightarrow> string \<Rightarrow> string list" where
  "split_on c [] = [[]]"
| "split_on c (x # xs) =
    (if x = c then [] # split_on c xs
     else (case split_on c xs of [] \<Rightarrow> [[x]] | w # ws \<Rightarrow> (x # w) # ws))"

text \<open>The white space of \<open>trim\<close> and of \<open>\s\<close> among the characters below 256: tab, line
  feed, vertical tab, form feed, carriage return, space and no-break space.\<close>

definition is_space :: "char \<Rightarrow> bool" where
  "is_space c =
    (c \<in> set [CHR 0x09, CHR 0x0A, CHR 0x0B, CHR 0x0C, CHR 0x0D, CHR 0x20, CHR 0xA0])"

definition trim :: "string \<Rightarrow> string" where
  "trim s = rev (dropWhile is_space (rev (dropWhile is_space s)))"

definition is_quote :: "char \<Rightarrow> bool" where
  "is_quote c = (c = CHR 0x27 \<or> c = CHR 0x22)"

definition line_end :: "char \<Rightarrow> bool" where
  "line_end c = (c = CHR 0x0A \<or> c = CHR 0x0D)"

text \<open>
  The expression \<^verbatim>\<open>/^.*url\(('|"|)?([^)]+?)('|"|)?\).*/\<close> and its replacement by
  \<^verbatim>\<open>$2\<close>, written out. \<open>url_inner t\<close> matches the lazy group, the optional closing quote
  and the closing parenthesis at the start of \<open>t\<close>: the group ends before the first closing
  parenthesis, or one character earlier when that character is a quote and the group stays
  non-empty. It returns the group and the text after the parenthesis.
\<close>

definition url_inner :: "string \<Rightarrow> (string \<times> string) option" where
  "url_inner t =
    (let pre = takeWhile (\<lambda>c. c \<noteq> CHR 0x29) t;
         rest = dropWhile (\<lambda>c. c \<noteq> CHR 0x29) t
     in if rest = [] \<or> pre = [] then None
        else if length pre \<ge> 2 \<and> is_quote (last pre) then Some (butlast pre, tl rest)
        else Some (pre, tl rest))"

text \<open>After the opening parenthesis: the opening quote is taken when that leads to a
  match.\<close>

definition url_open :: "string \<Rightarrow> (string \<times> string) option" where
  "url_open t =
    (case t of
       [] \<Rightarrow> None
     | c # cs \<Rightarrow>
         if is_quote c then (case url_inner cs of Some r \<Rightarrow> Some r | None \<Rightarrow> url_inner t)
         else url_inner t)"

text \<open>The greedy start of the expression prefers the last \<open>url\<close> with an opening
  parenthesis on the first line that leads to a match.\<close>

fun url_match :: "string \<Rightarrow> (string \<times> string) option" where
  "url_match [] = None"
| "url_match (c # cs) =
    (case (if line_end c then None else url_match cs) of
       Some r \<Rightarrow> Some r
     | None \<Rightarrow> if prefix ''url('' (c # cs) then url_open (drop 4 (c # cs)) else None)"

definition url_replace :: "string \<Rightarrow> string option" where
  "url_replace v =
    (case url_match v of
       None \<Rightarrow> None
     | Some (inner, after) \<Rightarrow> Some (inner @ dropWhile (\<lambda>c. \<not> line_end c) after))"

text \<open>The function mapped over the declarations of a \<open>style\<close> value. The destructuring
  \<open>[attr, value] = rules.split(':')\<close> keeps the first two pieces; with no colon \<open>value\<close> is
  undefined and \<open>value.match\<close> throws.\<close>

definition style_rule :: "string \<Rightarrow> error + string" where
  "style_rule rules =
    (if rules = [] then Inr []
     else
       (case split_on CHR '':'' rules of
          [] \<Rightarrow> Inr []
        | attr # pieces \<Rightarrow>
            if trim attr \<in> set [''background'', ''background-image''] then
              (case pieces of
                 [] \<Rightarrow> Inl TypeError
               | v # _ \<Rightarrow> (case url_replace v of Some r \<Rightarrow> Inr r | None \<Rightarrow> Inr []))
            else Inr []))"

text \<open>\<open>map\<close> with a function that may throw: the first error ends it.\<close>

fun map_throw :: "('a \<Rightarrow> error + 'b) \<Rightarrow> 'a list \<Rightarrow> error + 'b list" where
  "map_throw f [] = Inr []"
| "map_throw f (x # xs) =
    (case f x of
       Inl e \<Rightarrow> Inl e
     | Inr y \<Rightarrow> (case map_throw f xs of Inl e \<Rightarrow> Inl e | Inr ys \<Rightarrow> Inr (y # ys)))"

definition parseAttr :: "string \<Rightarrow> string \<Rightarrow> error + string list" where
  "parseAttr name v =
    (if name = ''style'' then
       map_throw style_rule (filter (\<lambda>val. val \<noteq> []) (split_on CHR '';'' v))
     else if name = ''srcset'' then
       Inr (map (\<lambda>pair. takeWhile (\<lambda>c. \<not> is_space c) (trim pair)) (split_on CHR '','' v))
     else Inr [v])"

definition is_alpha :: "char \<Rightarrow> bool" where
  "is_alpha c =
    (let n = (of_char c :: nat) in (65 \<le> n \<and> n \<le> 90) \<or> (97 \<le> n \<and> n \<le> 122))"

definition is_scheme_char :: "char \<Rightarrow> bool" where
  "is_scheme_char c =
    (let n = (of_char c :: nat)
     in is_alpha c \<or> (48 \<le> n \<and> n \<le> 57) \<or> c = CHR ''+'' \<or> c = CHR ''-'' \<or> c = CHR ''.'')"

definition isAbsoluteUrl :: "string \<Rightarrow> bool" where
  "isAbsoluteUrl u =
    (if (case u of a # b # c # _ \<Rightarrow> is_alpha a \<and> b = CHR '':'' \<and> c = CHR 0x5C | _ \<Rightarrow> False)
     then False
     else (case u of
             [] \<Rightarrow> False
           | a # rest \<Rightarrow>
               is_alpha a \<and>
               (case dropWhile is_scheme_char rest of [] \<Rightarrow> False | d # _ \<Rightarrow> d = CHR '':'')))"

text \<open>\<open>resolve l b\<close> stands for \<open>new URL(l, b)\<close>, \<open>None\<close> when the constructor throws.\<close>

definition getBaseUrl ::
  "(string \<Rightarrow> string \<Rightarrow> URL option) \<Rightarrow> string \<Rightarrow> string \<Rightarrow> error + string" where
  "getBaseUrl resolve htmlBaseUrl oldBaseUrl =
    (if isAbsoluteUrl htmlBaseUrl then Inr htmlBaseUrl
     else (case resolve htmlBaseUrl oldBaseUrl of
             None \<Rightarrow> Inl InvalidURL
           | Some u \<Rightarrow> Inr (href (u\<lparr>hash := []\<rparr>))))"

definition parseLink :: "(string \<Rightarrow> string \<Rightarrow> URL option) \<Rightarrow> string \<Rightarrow> string \<Rightarrow> ParsedUrl" where
  "parseLink resolve l baseUrl =
    (case resolve l baseUrl of
       Some u \<Rightarrow> \<lparr>link = l, parse_error = None, parsed_url = Some (u\<lparr>hash := []\<rparr>)\<rparr>
     | None \<Rightarrow> \<lparr>link = l, parse_error = Some InvalidURL, parsed_url = None\<rparr>)"

text \<open>The raw tokens \<open>getLinks\<close> collects, rule by rule and element by element.\<close>

definition raw_links :: "Document \<Rightarrow> AttributeRules \<Rightarrow> error + string list" where
  "raw_links doc linksAttr =
    (case map_throw (\<lambda>(attr, tags). map_throw (parseAttr attr) (attribs doc attr tags)) linksAttr of
       Inl e \<Rightarrow> Inl e
     | Inr vss \<Rightarrow> Inr (concat (map concat vss)))"

definition realBaseUrl ::
  "(string \<Rightarrow> string \<Rightarrow> URL option) \<Rightarrow> Document \<Rightarrow> string \<Rightarrow> error + string" where
  "realBaseUrl resolve doc baseUrl =
    (case base_hrefs doc of
       [] \<Rightarrow> Inr baseUrl
     | htmlBaseUrl # _ \<Rightarrow>
         if htmlBaseUrl \<noteq> [] then getBaseUrl resolve htmlBaseUrl baseUrl else Inr baseUrl)"

text \<open>\<open>linksAttr\<close> is \<open>None\<close> when the caller passes no third argument: \<open>Object.keys\<close> then
  throws, after the document has been loaded.\<close>

definition getLinks ::
  "(string \<Rightarrow> string \<Rightarrow> URL option) \<Rightarrow> Document \<Rightarrow> string \<Rightarrow> AttributeRules option \<Rightarrow>
   error + ParsedUrl list" where
  "getLinks resolve doc baseUrl linksAttr =
    (case linksAttr of
       None \<Rightarrow> Inl TypeError
     | Some rules \<Rightarrow>
         (case raw_links doc rules of
            Inl e \<Rightarrow> Inl e
          | Inr ls \<Rightarrow>
              (case realBaseUrl resolve doc baseUrl of
                 Inl e \<Rightarrow> Inl e
               | Inr b \<Rightarrow>
                   Inr (map (\<lambda>l. parseLink resolve l b) (filter (\<lambda>l. l \<noteq> []) ls)))))"

section \<open>The engine on the extractor\<close>

text \<open>
  The call of the engine, \<open>getLinks(data, opts.url)\<close>, passes two arguments: the document
  is loaded and \<open>linksAttr\<close> is undefined. The second branch, for a returned array, is never
  taken; it is written with the raw tokens of the returned records.
\<close>

definition called_getLinks ::
  "(string \<Rightarrow> string \<Rightarrow> URL option) \<Rightarrow> (string \<Rightarrow> Document) \<Rightarrow> string \<Rightarrow> string \<Rightarrow>
   string list option" where
  "called_getLinks resolve load data baseUrl =
    (case getLinks resolve (load data) baseUrl None of
       Inl e \<Rightarrow> None
     | Inr ps \<Rightarrow> Some (map link ps))"

text \<open>The engine on given platform services, with the extractor of this repository.\<close>

definition engine_platform ::
  "(string \<Rightarrow> string \<Rightarrow> bool option) \<Rightarrow> (string \<Rightarrow> URL option) \<Rightarrow>
   (string \<Rightarrow> string \<Rightarrow> URL option) \<Rightarrow> (string \<Rightarrow> Document) \<Rightarrow> Platform" where
  "engine_platform re new resolve load =
    \<lparr>re_test = re, new_URL = new, get_links = called_getLinks resolve load\<rparr>"


section \<open>A sample site\<close>

text \<open>
  Concrete instances of the platform services, used to run the engine on explicit inputs.
  \<open>sample_RegExp\<close> is \<open>RegExp.test\<close> on the patterns made of literal characters, with or
  without a leading \<open>^\<close>; it knows no other operator and refuses every other pattern, as
  the constructor refuses an opening parenthesis alone. \<open>sample_new_URL\<close> and
  \<open>sample_resolve\<close> tabulate the URL constructor on the strings of the sample:
  \<open>http://localhost:50000000\<close> (port out of range) and \<open>http://[bad\<close> (unclosed IPv6
  literal) are rejected by it.
\<close>

definition literal_char :: "char \<Rightarrow> bool" where
  "literal_char c =
    (is_alpha c \<or> (48 \<le> (of_char c :: nat) \<and> (of_char c :: nat) \<le> 57) \<or>
     c \<in> set '':/@-_=&%#,;!~ '')"

definition sample_RegExp :: "string \<Rightarrow> string \<Rightarrow> bool option" where
  "sample_RegExp pat u =
    (case pat of
       [] \<Rightarrow> Some True
     | c # lit \<Rightarrow>
         if c = CHR ''^'' \<and> list_all literal_char lit then Some (prefix lit u)
         else if list_all literal_char pat then Some (contains pat u)
         else None)"

definition sample_new_URL :: "string \<Rightarrow> URL option" where
  "sample_new_URL u =
    (if u = ''http://localhost:5000''
     then Some \<lparr>host = ''localhost:5000'', before_hash = ''http://localhost:5000/'', hash = []\<rparr>
     else if u = ''http://localhost:5000/a.html''
     then Some \<lparr>host = ''localhost:5000'', before_hash = ''http://localhost:5000/a.html'',
                 hash = []\<rparr>
     else if u = ''http://localhost:50001/''
     then Some \<lparr>host = ''localhost:50001'', before_hash = ''http://localhost:50001/'',
                 hash = []\<rparr>
     else None)"

definition sample_resolve :: "string \<Rightarrow> string \<Rightarrow> URL option" where
  "sample_resolve l b =
    (if l = ''a.html#top'' \<and> b = ''http://localhost:5000''
     then Some \<lparr>host = ''localhost:5000'', before_hash = ''http://localhost:5000/a.html'',
                 hash = ''#top''\<rparr>
     else None)"

definition sample_data :: string where
  "sample_data = ''<a href=a.html#top></a><a href=http://[bad></a>''"

definition sample_load :: "string \<Rightarrow> Document" where
  "sample_load d =
    \<lparr>attribs = (\<lambda>attr tags. if d = sample_data \<and> attr = ''href''
                              then [''a.html#top'', ''http://[bad''] else []),
     base_hrefs = []\<rparr>"

definition sample_platform :: Platform where
  "sample_platform = engine_platform sample_RegExp sample_new_URL sample_resolve sample_load"

text \<open>The same services with an extractor that hands the engine strings, as its loop
  expects them.\<close>

definition string_links :: "string \<Rightarrow> string \<Rightarrow> string list option" where
  "string_links data baseUrl =
    (if data = sample_data then Some [''http://localhost:5000/a.html'', ''http://[bad'']
     else Some [])"

definition string_platform :: Platform where
  "string_platform = sample_platform\<lparr>get_links := string_links\<rparr>"

definition sample_options :: CheckOptions where
  "sample_options =
    \<lparr>concurrency = None, port = None, path = ''http://localhost:5000'', recurse = Some True,
     linksToSkip = None\<rparr>"

definition sample_co :: CheckOptions where
  "sample_co = sample_options\<lparr>linksToSkip := Some builtin_skips\<rparr>"

definition sample_root :: CrawlOptions where
  "sample_root = \<lparr>c_url = ''http://localhost:5000'', c_parent = None, c_crawl = True\<rparr>"

definition sample_page :: Response where
  "sample_page =
    \<lparr>res_status = 200, content_type = Some ''text/html; charset=utf-8'',
     res_data = sample_data\<rparr>"

definition sample_404 :: Response where
  "sample_404 = \<lparr>res_status = 404, content_type = Some ''text/html'', res_data = []\<rparr>"

definition sample_405 :: Response where
  "sample_405 = \<lparr>res_status = 405, content_type = None, res_data = []\<rparr>"

definition sample_s1 :: Run where
  "sample_s1 = crawl_start sample_platform ((seed sample_co)\<lparr>queue := []\<rparr>) sample_root"

definition sample_s2 :: Run where
  "sample_s2 =
    crawl_response sample_platform (sample_s1\<lparr>pending := []\<rparr>) sample_root First
      (Some sample_page)"

text \<open>Options that skip the root itself, and options with a pattern that is no regular
  expression.\<close>

definition skipping_co :: CheckOptions where
  "skipping_co =
    sample_options\<lparr>linksToSkip := Some ([''localhost''] @ builtin_skips)\<rparr>"

definition broken_co :: CheckOptions where
  "broken_co =
    sample_options\<lparr>linksToSkip := Some ([''('', ''localhost''] @ builtin_skips)\<rparr>"

definition sample_probe :: CrawlOptions where
  "sample_probe =
    \<lparr>c_url = ''http://example.org/'', c_parent = Some ''http://localhost:5000'',
     c_crawl = False\<rparr>"

definition sample_local :: CheckOptions where
  "sample_local =
    \<lparr>concurrency = Some 5, port = None, path = ''docs'', recurse = None,
     linksToSkip = Some [''^ftp:'']\<rparr>"

section \<open>Invariants of a run\<close>

text \<open>A result is well classified when it has no status and is \<open>SKIPPED\<close>, or has a status
  and is \<open>OK\<close> exactly for a status from 200 to 299.\<close>

definition classified :: "LinkResult \<Rightarrow> bool" where
  "classified r =
    (case status r of
       None \<Rightarrow> state r = SKIPPED
     | Some n \<Rightarrow> state r = (if 200 \<le> n \<and> n < 300 then OK else BROKEN))"

definition inv_status :: "Run \<Rightarrow> bool" where
  "inv_status s = list_all classified (results s)"

text \<open>The URLs with a result and the URLs of the suspended tasks are pairwise different
  and all in the cache.\<close>

definition result_urls :: "Run \<Rightarrow> string list" where
  "result_urls s = map url (results s)"

definition pending_urls :: "Run \<Rightarrow> string list" where
  "pending_urls s = map (\<lambda>p. c_url (fst p)) (pending s)"

definition inv_dedup :: "Run \<Rightarrow> bool" where
  "inv_dedup s =
    (distinct (result_urls s @ pending_urls s) \<and>
     set (result_urls s @ pending_urls s) \<subseteq> cache s)"

text \<open>A URL passes the skip test of \<open>crawl\<close> when every pattern is a regular expression
  and none matches. In a run whose options hold the patterns \<open>pats\<close>, every result that is
  not \<open>SKIPPED\<close>, every request and every suspended task has a URL that passed.\<close>

definition passes :: "Platform \<Rightarrow> string list \<Rightarrow> string \<Rightarrow> bool" where
  "passes plat pats u = (skips plat pats u = Some [])"

definition inv_skip :: "Platform \<Rightarrow> string list \<Rightarrow> Run \<Rightarrow> bool" where
  "inv_skip plat pats s =
    (list_all (\<lambda>r. state r = SKIPPED \<or> passes plat pats (url r)) (results s) \<and>
     list_all (\<lambda>q. passes plat pats (req_url q)) (requests s) \<and>
     list_all (\<lambda>p. passes plat pats (c_url (fst p))) (pending s))"


section \<open>Evaluation of the sample\<close>

lemmas engine_defs = crawl_start_def crawl_response_def crawl_finish_def emit_result_def
  skips_def request_first_def request_retry_def status_of_def state_of_def data_of_def
  shouldRecurse_of_def isHtml_def child_def should_crawl_def seed_def limit_def

lemmas sample_defs = sample_platform_def engine_platform_def sample_options_def sample_co_def
  sample_root_def sample_page_def sample_RegExp_def literal_char_def is_alpha_def
  sample_new_URL_def builtin_skips_def sample_data_def

lemma getLinks_without_rules: "getLinks resolve doc baseUrl None = Inl TypeError"
  by (simp add: getLinks_def)

lemma called_getLinks_throws: "called_getLinks resolve load data baseUrl = None"
  by (simp add: called_getLinks_def getLinks_without_rules)

lemma sample_get_links: "get_links sample_platform data baseUrl = None"
  by (simp add: sample_platform_def engine_platform_def called_getLinks_throws)

lemma sample_s1_value:
  "sample_s1 =
    \<lparr>checkOptions = sample_co, queue = [], pending = [(sample_root, First)],
     cache = {''http://localhost:5000''}, results = [],
     requests = [\<lparr>req_method = GET, req_url = ''http://localhost:5000'', responseType = Text\<rparr>],
     events = []\<rparr>"
  by (simp add: sample_s1_def engine_defs sample_defs)

lemma sample_s2_value:
  "sample_s2 =
    \<lparr>checkOptions = sample_co,
     queue = [],
     pending = [],
     cache = {''http://localhost:5000''},
     results = [\<lparr>url = ''http://localhost:5000'', status = Some 200, state = OK,
                 parent = None\<rparr>],
     requests = [\<lparr>req_method = GET, req_url = ''http://localhost:5000'', responseType = Text\<rparr>],
     events = [Link \<lparr>url = ''http://localhost:5000'', status = Some 200, state = OK,
                     parent = None\<rparr>,
               PageStart ''http://localhost:5000'']\<rparr>"
proof -
  have page: "res_data sample_page = sample_data" "res_status sample_page = 200"
    "content_type sample_page = Some ''text/html; charset=utf-8''"
    by (simp_all add: sample_page_def)
  have root: "c_url sample_root = ''http://localhost:5000''" "c_crawl sample_root"
    "c_parent sample_root = None"
    by (simp_all add: sample_root_def)
  show ?thesis
    unfolding sample_s2_def sample_s1_value
    by (simp add: crawl_response_def crawl_finish_def emit_result_def status_of_def
        state_of_def data_of_def shouldRecurse_of_def isHtml_def page root
        sample_get_links Let_def)
qed

lemma sample_s1_reachable: "reachable sample_platform sample_co sample_s1"
proof -
  have "step sample_platform (seed sample_co)
          (crawl_start sample_platform ((seed sample_co)\<lparr>queue := []\<rparr>) sample_root)"
    by (rule step.start) (simp_all add: seed_def limit_def sample_defs)
  with seeded show ?thesis unfolding sample_s1_def by (rule stepped)
qed

lemma sample_s2_reachable: "reachable sample_platform sample_co sample_s2"
proof -
  have "pending sample_s1 = [] @ (sample_root, First) # []"
    by (simp add: sample_s1_value)
  then have "step sample_platform sample_s1
          (crawl_response sample_platform (sample_s1\<lparr>pending := [] @ []\<rparr>) sample_root First
             (Some sample_page))"
    by (rule step.response)
  then have "step sample_platform sample_s1 sample_s2"
    by (simp add: sample_s2_def)
  with sample_s1_reachable show ?thesis by (rule stepped)
qed

section \<open>Status classification\<close>

lemma finish_results:
  "results (crawl_finish plat s opts outcome) =
     results s @ [\<lparr>url = c_url opts, status = Some (status_of outcome),
                   state = state_of outcome, parent = c_parent opts\<rparr>]"
  by (simp add: crawl_finish_def emit_result_def Let_def split: option.splits)

lemma state_of_status:
  "state_of outcome =
     (if 200 \<le> status_of outcome \<and> status_of outcome < 300 then OK else BROKEN)"
  by (simp add: state_of_def status_of_def split: option.splits)

lemma classified_fetched:
  "classified \<lparr>url = u, status = Some (status_of outcome), state = state_of outcome,
               parent = p\<rparr>"
  by (simp add: classified_def state_of_status)

lemma classified_skipped:
  "classified \<lparr>url = u, status = None, state = SKIPPED, parent = p\<rparr>"
  by (simp add: classified_def)

lemma start_results:
  "results (crawl_start plat s opts) = results s \<or>
   results (crawl_start plat s opts) =
     results s @ [\<lparr>url = c_url opts, status = None, state = SKIPPED,
                   parent = c_parent opts\<rparr>]"
  by (simp add: crawl_start_def emit_result_def Let_def split: option.splits)

lemma inv_status_finish: "inv_status s \<Longrightarrow> inv_status (crawl_finish plat s opts outcome)"
  by (simp add: inv_status_def finish_results classified_fetched)

lemma inv_status_start: "inv_status s \<Longrightarrow> inv_status (crawl_start plat s opts)"
  using start_results[of plat s opts] by (auto simp: inv_status_def classified_skipped)

lemma inv_status_response:
  "inv_status s \<Longrightarrow> inv_status (crawl_response plat s opts ph outcome)"
  by (cases ph; cases outcome)
     (auto simp: crawl_response_def inv_status_finish, simp add: inv_status_def)

lemma inv_status_step: "step plat s s' \<Longrightarrow> inv_status s \<Longrightarrow> inv_status s'"
proof (induction rule: step.induct)
  case (start s opts rest)
  then have "inv_status (s\<lparr>queue := rest\<rparr>)" by (simp add: inv_status_def)
  then show ?case by (rule inv_status_start)
next
  case (response s before opts ph after outcome)
  then have "inv_status (s\<lparr>pending := before @ after\<rparr>)" by (simp add: inv_status_def)
  then show ?case by (rule inv_status_response)
qed

lemma inv_status_reachable: "reachable plat co s \<Longrightarrow> inv_status s"
proof (induction rule: reachable.induct)
  case seeded
  show ?case by (simp add: inv_status_def seed_def)
next
  case (stepped s s')
  then show ?case by (simp add: inv_status_step)
qed

lemma reachable_classified:
  "reachable plat co s \<Longrightarrow> r \<in> set (results s) \<Longrightarrow> classified r"
  using inv_status_reachable[of plat co s] by (simp add: inv_status_def list_all_iff)

lemma response_transport_failure:
  "crawl_response plat s opts ph None =
     emit_result \<lparr>url = c_url opts, status = Some 0, state = BROKEN,
                  parent = c_parent opts\<rparr> s"
  by (cases ph)
     (simp_all add: crawl_response_def crawl_finish_def shouldRecurse_of_def status_of_def
        state_of_def)

lemma response_final:
  assumes "ph = Retry \<or> res_status res \<noteq> 405"
  shows "crawl_response plat s opts ph (Some res) = crawl_finish plat s opts (Some res)"
  using assms by (cases ph) (simp_all add: crawl_response_def)

lemma response_final_results:
  assumes "ph = Retry \<or> res_status res \<noteq> 405"
  shows "results (crawl_response plat s opts ph (Some res)) =
     results s @ [\<lparr>url = c_url opts, status = Some (res_status res),
                   state = (if 200 \<le> res_status res \<and> res_status res < 300 then OK
                            else BROKEN),
                   parent = c_parent opts\<rparr>]"
  unfolding response_final[OF assms] finish_results
  by (simp add: status_of_def state_of_def)

text \<open>
  C6. The state of every result a run has emitted with a status is fixed by that status
  alone: \<open>OK\<close> for a status from 200 to 299 and \<open>BROKEN\<close> for any other. Every response
  that ends a task, the answer to the repeated request or a first answer other than 405,
  adds exactly the result with the status of the response and the state that status fixes.
  A request that throws, the first or the repeated one, adds the result of status 0 and
  state \<open>BROKEN\<close> and leaves the queue, the suspended tasks, the cache, the requests and
  the options as they were: the task is completed and the run goes on.
\<close>

theorem status_determines_state:
  "(reachable plat co s \<longrightarrow> r \<in> set (results s) \<longrightarrow> status r = Some n \<longrightarrow>
      state r = (if 200 \<le> n \<and> n < 300 then OK else BROKEN)) \<and>
   (ph = Retry \<or> res_status res \<noteq> 405 \<longrightarrow>
      results (crawl_response plat s' opts ph (Some res)) =
        results s' @ [\<lparr>url = c_url opts, status = Some (res_status res),
                       state = (if 200 \<le> res_status res \<and> res_status res < 300 then OK
                                else BROKEN),
                       parent = c_parent opts\<rparr>]) \<and>
   results (crawl_response plat s' opts ph None) =
     results s' @ [\<lparr>url = c_url opts, status = Some 0, state = BROKEN,
                    parent = c_parent opts\<rparr>] \<and>
   queue (crawl_response plat s' opts ph None) = queue s' \<and>
   pending (crawl_response plat s' opts ph None) = pending s' \<and>
   cache (crawl_response plat s' opts ph None) = cache s' \<and>
   requests (crawl_response plat s' opts ph None) = requests s' \<and>
   checkOptions (crawl_response plat s' opts ph None) = checkOptions s'"
proof -
  have a: "state r = (if 200 \<le> n \<and> n < 300 then OK else BROKEN)"
    if "reachable plat co s" "r \<in> set (results s)" "status r = Some n"
    using reachable_classified[OF that(1,2)] that(3) by (simp add: classified_def)
  have b: "results (crawl_response plat s' opts ph (Some res)) =
        results s' @ [\<lparr>url = c_url opts, status = Some (res_status res),
                       state = (if 200 \<le> res_status res \<and> res_status res < 300 then OK
                                else BROKEN),
                       parent = c_parent opts\<rparr>]"
    if "ph = Retry \<or> res_status res \<noteq> 405"
    using that by (rule response_final_results)
  have c: "results (crawl_response plat s' opts ph None) =
     results s' @ [\<lparr>url = c_url opts, status = Some 0, state = BROKEN,
                    parent = c_parent opts\<rparr>]"
    "queue (crawl_response plat s' opts ph None) = queue s'"
    "pending (crawl_response plat s' opts ph None) = pending s'"
    "cache (crawl_response plat s' opts ph None) = cache s'"
    "requests (crawl_response plat s' opts ph None) = requests s'"
    "checkOptions (crawl_response plat s' opts ph None) = checkOptions s'"
    by (simp_all add: response_transport_failure emit_result_def)
  from a b c show ?thesis by blast
qed

theorem status_determines_state_witness:
  "reachable sample_platform sample_co sample_s2 \<and>
   \<lparr>url = ''http://localhost:5000'', status = Some 200, state = OK, parent = None\<rparr>
     \<in> set (results sample_s2) \<and>
   res_status sample_404 \<noteq> 405 \<and>
   results (crawl_response sample_platform (sample_s1\<lparr>pending := []\<rparr>) sample_root First
              (Some sample_404)) =
     [\<lparr>url = ''http://localhost:5000'', status = Some 404, state = BROKEN, parent = None\<rparr>] \<and>
   results (crawl_response sample_platform (sample_s1\<lparr>pending := []\<rparr>) sample_root First
              None) =
     [\<lparr>url = ''http://localhost:5000'', status = Some 0, state = BROKEN, parent = None\<rparr>]"
  using status_determines_state[of sample_platform sample_co sample_s2
      "\<lparr>url = ''http://localhost:5000'', status = Some 200, state = OK, parent = None\<rparr>"
      200 First sample_404 "sample_s1\<lparr>pending := []\<rparr>" sample_root]
    sample_s2_reachable
  by (simp add: sample_s2_value sample_s1_value sample_root_def sample_404_def)

text \<open>
  C10. In every state of a run, a result has state \<open>SKIPPED\<close> exactly when it has no
  status; a result with state \<open>OK\<close> or \<open>BROKEN\<close> therefore carries a number, and the
  result of a request that threw carries 0.
\<close>

theorem skipped_iff_no_status:
  "(reachable plat co s \<longrightarrow> r \<in> set (results s) \<longrightarrow>
      (state r = SKIPPED) = (status r = None)) \<and>
   status (last (results (crawl_response plat s' opts ph None))) = Some 0"
proof -
  have "(state r = SKIPPED) = (status r = None)"
    if "reachable plat co s" "r \<in> set (results s)"
    using reachable_classified[OF that] by (cases "status r") (auto simp: classified_def)
  then show ?thesis by (simp add: response_transport_failure emit_result_def)
qed

theorem skipped_iff_no_status_witness:
  "reachable sample_platform sample_co sample_s2 \<and>
   state (hd (results sample_s2)) \<noteq> SKIPPED \<and> status (hd (results sample_s2)) \<noteq> None \<and>
   status (last (results (crawl_response sample_platform sample_s2 sample_root Retry None)))
     = Some 0"
  using skipped_iff_no_status[of sample_platform sample_co sample_s2
      "hd (results sample_s2)" sample_s2 sample_root Retry]
    sample_s2_reachable
  by (simp add: sample_s2_value)

section \<open>Tokens of a style attribute\<close>

lemmas style_defs = parseAttr_def style_rule_def url_replace_def url_open_def url_inner_def
  is_quote_def line_end_def trim_def is_space_def

text \<open>
  C8. A \<open>background\<close> declaration whose \<open>url(...)\<close> holds an absolute URL: the declaration
  is cut at every colon and only the piece between the first two colons is searched, so
  the value searched is \<open>url(http\<close>, nothing matches, and the declaration yields the empty
  token instead of the inner URL.
\<close>

theorem style_absolute_url_lost:
  "parseAttr ''style'' ''background: url(http://example.com/a.png)'' = Inr [[]]"
  by (simp add: style_defs)

lemma style_relative_url:
  "parseAttr ''style'' ''color: red; background-image : url('a.png') no-repeat;'' =
     Inr [[], ''a.png'']"
  by (simp add: style_defs)

lemma style_no_colon_throws: "parseAttr ''style'' ''background'' = Inl TypeError"
  by (simp add: style_defs)

section \<open>The cache gate\<close>

lemma inv_dedup_start: "inv_dedup s \<Longrightarrow> inv_dedup (crawl_start plat s opts)"
  by (auto simp: inv_dedup_def crawl_start_def emit_result_def result_urls_def
      pending_urls_def Let_def split: option.splits)

lemma finish_dedup_fields:
  "result_urls (crawl_finish plat s opts outcome) = result_urls s @ [c_url opts]"
  "pending (crawl_finish plat s opts outcome) = pending s"
  "cache (crawl_finish plat s opts outcome) = cache s"
  by (simp_all add: crawl_finish_def emit_result_def result_urls_def Let_def
      split: option.splits)

lemma inv_dedup_finish:
  assumes "inv_dedup s" "c_url opts \<in> cache s"
    "c_url opts \<notin> set (result_urls s @ pending_urls s)"
  shows "inv_dedup (crawl_finish plat s opts outcome)"
  using assms by (auto simp: inv_dedup_def finish_dedup_fields pending_urls_def)

lemma inv_dedup_response:
  assumes "inv_dedup s" "c_url opts \<in> cache s"
    "c_url opts \<notin> set (result_urls s @ pending_urls s)"
  shows "inv_dedup (crawl_response plat s opts ph outcome)"
proof (cases "ph = First \<and> (\<exists>res. outcome = Some res \<and> res_status res = 405)")
  case True
  then have "crawl_response plat s opts ph outcome =
      s\<lparr>requests := requests s @ [request_retry opts],
        pending := pending s @ [(opts, Retry)]\<rparr>"
    by (auto simp: crawl_response_def)
  with assms show ?thesis
    by (auto simp: inv_dedup_def result_urls_def pending_urls_def)
next
  case False
  then have "crawl_response plat s opts ph outcome = crawl_finish plat s opts outcome"
    by (cases ph; cases outcome) (auto simp: crawl_response_def)
  with assms show ?thesis by (simp add: inv_dedup_finish)
qed

lemma inv_dedup_step: "step plat s s' \<Longrightarrow> inv_dedup s \<Longrightarrow> inv_dedup s'"
proof (induction rule: step.induct)
  case (start s opts rest)
  then have "inv_dedup (s\<lparr>queue := rest\<rparr>)"
    by (simp add: inv_dedup_def result_urls_def pending_urls_def)
  then show ?case by (rule inv_dedup_start)
next
  case (response s before opts ph after outcome)
  let ?t = "s\<lparr>pending := before @ after\<rparr>"
  from response have "inv_dedup ?t" "c_url opts \<in> cache ?t"
    "c_url opts \<notin> set (result_urls ?t @ pending_urls ?t)"
    by (auto simp: inv_dedup_def result_urls_def pending_urls_def)
  then show ?case by (rule inv_dedup_response)
qed

lemma inv_dedup_reachable: "reachable plat co s \<Longrightarrow> inv_dedup s"
proof (induction rule: reachable.induct)
  case seeded
  show ?case by (simp add: inv_dedup_def seed_def result_urls_def pending_urls_def)
next
  case (stepped s s')
  then show ?case by (simp add: inv_dedup_step)
qed

text \<open>
  C7. In every state of a run, whatever the order in which tasks start and responses
  arrive, the results carry pairwise different URLs. A task whose URL is in the cache
  when it starts leaves the run state as it is, so it emits nothing; and the start of a
  task, which is one transition of the run (the source has no \<open>await\<close> between
  \<open>cache.has\<close> and \<open>cache.add\<close>), both tests the cache and leaves the URL in it.
\<close>

theorem results_distinct:
  "(reachable plat co s \<longrightarrow> distinct (map url (results s))) \<and>
   (c_url opts \<in> cache s' \<longrightarrow> crawl_start plat s' opts = s') \<and>
   c_url opts \<in> cache (crawl_start plat s' opts)"
proof -
  have "distinct (map url (results s))" if "reachable plat co s"
    using inv_dedup_reachable[OF that] by (simp add: inv_dedup_def result_urls_def)
  moreover have "c_url opts \<in> cache (crawl_start plat s' opts)"
    by (simp add: crawl_start_def emit_result_def Let_def split: option.splits)
  ultimately show ?thesis by (simp add: crawl_start_def)
qed

theorem results_distinct_witness:
  "reachable sample_platform sample_co sample_s2 \<and>
   distinct (map url (results sample_s2)) \<and>
   c_url sample_root \<in> cache sample_s2 \<and>
   crawl_start sample_platform sample_s2 sample_root = sample_s2"
  using results_distinct[of sample_platform sample_co sample_s2 sample_root sample_s2]
    sample_s2_reachable
  by (simp add: sample_s2_value sample_root_def)

section \<open>The skip gate\<close>

lemma tests_pass:
  "(map_option (filter (\<lambda>m. m)) (tests t ps) = Some []) = (\<forall>p \<in> set ps. t p = Some False)"
  by (induction ps) (auto split: option.splits)

lemma passes_iff: "passes plat pats u = (\<forall>pat \<in> set pats. re_test plat pat u = Some False)"
  unfolding passes_def skips_def by (rule tests_pass)

lemma tests_total:
  "(\<forall>p \<in> set ps. t p \<noteq> None) \<Longrightarrow> tests t ps = Some (map (\<lambda>p. the (t p)) ps)"
  by (induction ps) auto

lemma skips_match:
  assumes "\<forall>p \<in> set pats. re_test plat p u \<noteq> None" "pat \<in> set pats"
    "re_test plat pat u = Some True"
  shows "\<exists>ms. skips plat pats u = Some ms \<and> length ms > 0"
proof -
  have "True \<in> set (map (\<lambda>p. the (re_test plat p u)) pats)"
    using assms(2,3) by force
  then have "filter (\<lambda>m. m) (map (\<lambda>p. the (re_test plat p u)) pats) \<noteq> []"
    by (auto simp: filter_empty_conv)
  then show ?thesis
    using tests_total[of pats "\<lambda>p. re_test plat p u"] assms(1) by (simp add: skips_def)
qed

lemma step_options: "step plat s s' \<Longrightarrow> checkOptions s' = checkOptions s"
  by (induction rule: step.induct)
     (auto simp: crawl_start_def crawl_response_def crawl_finish_def emit_result_def Let_def
        split: option.splits Phase.splits)

lemma reachable_options: "reachable plat co s \<Longrightarrow> checkOptions s = co"
  by (induction rule: reachable.induct) (simp_all add: seed_def step_options)

lemma start_skipped:
  assumes "linksToSkip (checkOptions s) = Some pats" "skips plat pats (c_url opts) = Some ms"
    "length ms > 0" "c_url opts \<notin> cache s"
  shows "crawl_start plat s opts =
     emit_result \<lparr>url = c_url opts, status = None, state = SKIPPED, parent = c_parent opts\<rparr>
       (s\<lparr>cache := insert (c_url opts) (cache s)\<rparr>)"
  using assms by (simp add: crawl_start_def)

lemma start_rejected:
  assumes "linksToSkip (checkOptions s) = Some pats" "skips plat pats (c_url opts) = None"
    "c_url opts \<notin> cache s"
  shows "crawl_start plat s opts = s\<lparr>cache := insert (c_url opts) (cache s)\<rparr>"
  using assms by (simp add: crawl_start_def)

lemma inv_skip_start:
  assumes "inv_skip plat pats s" "linksToSkip (checkOptions s) = Some pats"
  shows "inv_skip plat pats (crawl_start plat s opts)"
  using assms
  by (auto simp: inv_skip_def crawl_start_def emit_result_def request_first_def
      passes_def Let_def split: option.splits)

lemma inv_skip_finish:
  assumes "inv_skip plat pats s" "passes plat pats (c_url opts)"
  shows "inv_skip plat pats (crawl_finish plat s opts outcome)"
  using assms
  by (auto simp: inv_skip_def crawl_finish_def emit_result_def Let_def split: option.splits)

lemma inv_skip_response:
  assumes "inv_skip plat pats s" "passes plat pats (c_url opts)"
  shows "inv_skip plat pats (crawl_response plat s opts ph outcome)"
proof (cases "ph = First \<and> (\<exists>res. outcome = Some res \<and> res_status res = 405)")
  case True
  then have "crawl_response plat s opts ph outcome =
      s\<lparr>requests := requests s @ [request_retry opts],
        pending := pending s @ [(opts, Retry)]\<rparr>"
    by (auto simp: crawl_response_def)
  with assms show ?thesis by (simp add: inv_skip_def request_retry_def)
next
  case False
  then have "crawl_response plat s opts ph outcome = crawl_finish plat s opts outcome"
    by (cases ph; cases outcome) (auto simp: crawl_response_def)
  with assms show ?thesis by (simp add: inv_skip_finish)
qed

lemma inv_skip_step:
  assumes "step plat s s'" "inv_skip plat pats s" "linksToSkip (checkOptions s) = Some pats"
  shows "inv_skip plat pats s'"
  using assms
proof (induction rule: step.induct)
  case (start s opts rest)
  then have "inv_skip plat pats (s\<lparr>queue := rest\<rparr>)"
    "linksToSkip (checkOptions (s\<lparr>queue := rest\<rparr>)) = Some pats"
    by (simp_all add: inv_skip_def)
  then show ?case by (rule inv_skip_start)
next
  case (response s before opts ph after outcome)
  then have "inv_skip plat pats (s\<lparr>pending := before @ after\<rparr>)"
    "passes plat pats (c_url opts)"
    by (simp_all add: inv_skip_def)
  then show ?case by (rule inv_skip_response)
qed

lemma inv_skip_reachable:
  assumes "reachable plat co s" "linksToSkip co = Some pats"
  shows "inv_skip plat pats s"
  using assms
proof (induction rule: reachable.induct)
  case seeded
  show ?case by (simp add: inv_skip_def seed_def)
next
  case (stepped s s')
  then show ?case using inv_skip_step reachable_options by metis
qed

lemma setup_skips:
  "check_setup rnd listens options = Inr co \<Longrightarrow>
   linksToSkip co =
     Some ((case linksToSkip options of None \<Rightarrow> [] | Some l \<Rightarrow> l) @ builtin_skips)"
  by (auto simp: check_setup_def Let_def split: if_splits)

text \<open>
  C9, as the engine does it. Let the options of a run hold the patterns \<open>pats\<close> and let
  \<open>u\<close> match one of them. Then in every state of the run each result for \<open>u\<close> is
  \<open>SKIPPED\<close> and no request for \<open>u\<close> has been issued. When moreover every pattern is a
  regular expression, a task for \<open>u\<close> that passes the cache gate adds exactly one result,
  \<open>SKIPPED\<close>, without status and with the task's parent, announces it, and issues no
  request and suspends nothing. The options that \<open>check\<close> hands to the run hold the
  supplied patterns followed by the three built-in ones.
\<close>

theorem skip_gate:
  assumes "linksToSkip co = Some pats" "pat \<in> set pats" "re_test plat pat u = Some True"
  shows "(reachable plat co s \<longrightarrow>
            (\<forall>r \<in> set (results s). url r = u \<longrightarrow> state r = SKIPPED) \<and>
            (\<forall>q \<in> set (requests s). req_url q \<noteq> u)) \<and>
         (checkOptions s' = co \<longrightarrow> c_url opts = u \<longrightarrow> u \<notin> cache s' \<longrightarrow>
          (\<forall>p \<in> set pats. re_test plat p u \<noteq> None) \<longrightarrow>
            results (crawl_start plat s' opts) =
              results s' @ [\<lparr>url = u, status = None, state = SKIPPED,
                             parent = c_parent opts\<rparr>] \<and>
            events (crawl_start plat s' opts) =
              events s' @ [Link \<lparr>url = u, status = None, state = SKIPPED,
                                  parent = c_parent opts\<rparr>] \<and>
            requests (crawl_start plat s' opts) = requests s' \<and>
            pending (crawl_start plat s' opts) = pending s') \<and>
         (check_setup rnd listens options = Inr co \<longrightarrow>
            (\<exists>user. pats = user @ [''^mailto:'', ''^irc:'', ''^data:'']))"
proof -
  from assms(2,3) have m: "\<not> passes plat pats u"
    unfolding passes_iff by (auto intro!: bexI[of _ pat])
  have a: "(\<forall>r \<in> set (results s). url r = u \<longrightarrow> state r = SKIPPED) \<and>
           (\<forall>q \<in> set (requests s). req_url q \<noteq> u)" if "reachable plat co s"
    using inv_skip_reachable[OF that assms(1)] m by (auto simp: inv_skip_def list_all_iff)
  have b: "results (crawl_start plat s' opts) =
              results s' @ [\<lparr>url = u, status = None, state = SKIPPED,
                             parent = c_parent opts\<rparr>] \<and>
            events (crawl_start plat s' opts) =
              events s' @ [Link \<lparr>url = u, status = None, state = SKIPPED,
                                  parent = c_parent opts\<rparr>] \<and>
            requests (crawl_start plat s' opts) = requests s' \<and>
            pending (crawl_start plat s' opts) = pending s'"
    if "checkOptions s' = co" "c_url opts = u" "u \<notin> cache s'"
      "\<forall>p \<in> set pats. re_test plat p u \<noteq> None"
  proof -
    from skips_match[OF that(4) assms(2,3)]
    obtain ms where "skips plat pats u = Some ms" "length ms > 0" by blast
    then show ?thesis
      using start_skipped[of s' pats plat opts ms] that(1,2,3) assms(1)
      by (simp add: emit_result_def)
  qed
  have c: "\<exists>user. pats = user @ [''^mailto:'', ''^irc:'', ''^data:'']"
    if "check_setup rnd listens options = Inr co"
    using setup_skips[OF that] assms(1) by (simp add: builtin_skips_def)
  from a b c show ?thesis by blast
qed

lemma sample_RegExp_values:
  "sample_RegExp ''localhost'' ''http://localhost:5000'' = Some True"
  "sample_RegExp ''^mailto:'' ''http://localhost:5000'' = Some False"
  "sample_RegExp ''^irc:'' ''http://localhost:5000'' = Some False"
  "sample_RegExp ''^data:'' ''http://localhost:5000'' = Some False"
  "sample_RegExp ''('' ''http://localhost:5000'' = None"
  by (simp_all add: sample_RegExp_def literal_char_def is_alpha_def)

theorem skip_gate_witness:
  "linksToSkip skipping_co =
     Some [''localhost'', ''^mailto:'', ''^irc:'', ''^data:''] \<and>
   re_test sample_platform ''localhost'' ''http://localhost:5000'' = Some True \<and>
   reachable sample_platform skipping_co (seed skipping_co) \<and>
   check_setup 0 True (sample_options\<lparr>linksToSkip := Some [''localhost'']\<rparr>) =
     Inr skipping_co \<and>
   results (crawl_start sample_platform ((seed skipping_co)\<lparr>queue := []\<rparr>) sample_root) =
     [\<lparr>url = ''http://localhost:5000'', status = None, state = SKIPPED, parent = None\<rparr>] \<and>
   requests (crawl_start sample_platform ((seed skipping_co)\<lparr>queue := []\<rparr>) sample_root) =
     []"
proof -
  let ?pats = "[''localhost'', ''^mailto:'', ''^irc:'', ''^data:'']"
  let ?u = "''http://localhost:5000''"
  let ?s = "(seed skipping_co)\<lparr>queue := []\<rparr>"
  have h1: "linksToSkip skipping_co = Some ?pats"
    by (simp add: skipping_co_def builtin_skips_def)
  have h2: "''localhost'' \<in> set ?pats" by simp
  have h3: "re_test sample_platform ''localhost'' ?u = Some True"
    by (simp add: sample_platform_def engine_platform_def sample_RegExp_values)
  have h4: "check_setup 0 True (sample_options\<lparr>linksToSkip := Some [''localhost'']\<rparr>) =
      Inr skipping_co"
    by (simp add: check_setup_def skipping_co_def sample_options_def)
  have h5: "checkOptions ?s = skipping_co" "c_url sample_root = ?u" "?u \<notin> cache ?s"
    "c_parent sample_root = None" "results ?s = []" "requests ?s = []"
    by (simp_all add: seed_def sample_root_def)
  have h6: "\<forall>p \<in> set ?pats. re_test sample_platform p ?u \<noteq> None"
    by (auto simp: sample_platform_def engine_platform_def sample_RegExp_values)
  show ?thesis
    using skip_gate[OF h1 h2 h3, of "seed skipping_co" ?s sample_root 0 True
        "sample_options\<lparr>linksToSkip := Some [''localhost'']\<rparr>"]
      h1 h3 h4 h5 h6 seeded[of sample_platform skipping_co]
    by simp
qed

theorem invalid_pattern_counterexample:
  "linksToSkip broken_co =
     Some [''('', ''localhost'', ''^mailto:'', ''^irc:'', ''^data:''] \<and>
   re_test sample_platform ''localhost'' ''http://localhost:5000'' = Some True \<and>
   re_test sample_platform ''('' ''http://localhost:5000'' = None \<and>
   crawl_start sample_platform ((seed broken_co)\<lparr>queue := []\<rparr>) sample_root =
     (seed broken_co)\<lparr>queue := [], cache := {''http://localhost:5000''}\<rparr> \<and>
   results (crawl_start sample_platform ((seed broken_co)\<lparr>queue := []\<rparr>) sample_root) = []"
proof -
  have h: "re_test sample_platform ''localhost'' ''http://localhost:5000'' = Some True"
    "re_test sample_platform ''('' ''http://localhost:5000'' = None"
    by (simp_all add: sample_platform_def engine_platform_def sample_RegExp_values)
  have p: "linksToSkip broken_co =
     Some [''('', ''localhost'', ''^mailto:'', ''^irc:'', ''^data:'']"
    by (simp add: broken_co_def builtin_skips_def)
  have k: "skips sample_platform [''('', ''localhost'', ''^mailto:'', ''^irc:'', ''^data:'']
             ''http://localhost:5000'' = None"
    by (simp add: skips_def h)
  have "crawl_start sample_platform ((seed broken_co)\<lparr>queue := []\<rparr>) sample_root =
     (seed broken_co)\<lparr>queue := [], cache := {''http://localhost:5000''}\<rparr>"
    by (simp add: crawl_start_def seed_def p k sample_root_def)
  then show ?thesis using h p by (simp add: seed_def)
qed

section \<open>The repeated request\<close>

lemma finish_fields:
  "requests (crawl_finish plat s opts outcome) = requests s"
  "pending (crawl_finish plat s opts outcome) = pending s"
  by (simp_all add: crawl_finish_def emit_result_def Let_def split: option.splits)

text \<open>After a first answer of status 405 the task issues exactly one further request, a
  \<open>GET\<close>, and emits nothing yet; the answer to that request, also a second 405, ends the
  task with one result and no further request.\<close>

lemma retry_after_405:
  "(res_status res = 405 \<longrightarrow>
      crawl_response plat s opts First (Some res) =
        s\<lparr>requests := requests s @ [\<lparr>req_method = GET, req_url = c_url opts,
                                      responseType = Stream\<rparr>],
          pending := pending s @ [(opts, Retry)]\<rparr>) \<and>
   requests (crawl_response plat s' opts Retry outcome) = requests s' \<and>
   pending (crawl_response plat s' opts Retry outcome) = pending s' \<and>
   results (crawl_response plat s' opts Retry outcome) =
     results s' @ [\<lparr>url = c_url opts, status = Some (status_of outcome),
                    state = state_of outcome, parent = c_parent opts\<rparr>]"
  by (simp add: crawl_response_def request_retry_def finish_fields finish_results)

text \<open>
  C5. The root task is started with \<open>crawl\<close> set, so its first request is a \<open>GET\<close> that
  asks for the text of the page. When the server answers it with 405, the engine repeats
  the \<open>GET\<close>, now asking for a stream: the repetition is not kept to a \<open>HEAD\<close>.
\<close>

theorem get_answered_405_is_repeated:
  "req_method (request_first sample_root) = GET \<and>
   requests (crawl_response sample_platform (sample_s1\<lparr>pending := []\<rparr>) sample_root First
               (Some sample_405)) =
     [\<lparr>req_method = GET, req_url = ''http://localhost:5000'', responseType = Text\<rparr>,
      \<lparr>req_method = GET, req_url = ''http://localhost:5000'', responseType = Stream\<rparr>]"
  by (simp add: sample_s1_value crawl_response_def request_first_def request_retry_def
      sample_root_def sample_405_def)

section \<open>Recursion into a page\<close>

lemma contains_sublist: "contains sub s = sublist sub s"
  by (induction s) (auto simp: sublist_Cons_right)

lemma start_queue: "queue (crawl_start plat s opts) = queue s"
  by (simp add: crawl_start_def emit_result_def Let_def split: option.splits)

lemma finish_no_recursion:
  assumes "\<not> (c_crawl opts \<and> (\<exists>res. outcome = Some res \<and> isHtml res))"
  shows "crawl_finish plat s opts outcome =
     emit_result \<lparr>url = c_url opts, status = Some (status_of outcome),
                  state = state_of outcome, parent = c_parent opts\<rparr> s"
  using assms by (cases outcome) (auto simp: crawl_finish_def shouldRecurse_of_def Let_def)

lemma response_no_recursion:
  assumes "\<not> (c_crawl opts \<and> (\<exists>res. outcome = Some res \<and> isHtml res))"
  shows "queue (crawl_response plat s opts ph outcome) = queue s \<and>
         (PageStart u \<in> set (events (crawl_response plat s opts ph outcome)) \<longrightarrow>
          PageStart u \<in> set (events s))"
proof (cases "ph = First \<and> (\<exists>res. outcome = Some res \<and> res_status res = 405)")
  case True
  then have "crawl_response plat s opts ph outcome =
      s\<lparr>requests := requests s @ [request_retry opts],
        pending := pending s @ [(opts, Retry)]\<rparr>"
    by (auto simp: crawl_response_def)
  then show ?thesis by simp
next
  case False
  then have "crawl_response plat s opts ph outcome = crawl_finish plat s opts outcome"
    by (cases ph; cases outcome) (auto simp: crawl_response_def)
  then show ?thesis using finish_no_recursion[OF assms] by (simp add: emit_result_def)
qed

lemma finish_recursion:
  assumes "c_crawl opts" "isHtml res" "get_links plat (res_data res) (c_url opts) = Some urls"
  shows "queue (crawl_finish plat s opts (Some res)) =
     queue s @ map (child plat (checkOptions s) (c_url opts)) urls"
  using assms
  by (simp add: crawl_finish_def shouldRecurse_of_def data_of_def emit_result_def Let_def)

text \<open>
  C3. A task adds child tasks to the queue, and announces the page with \<open>pagestart\<close>, only
  when it was started with \<open>crawl\<close> set, the \<open>try\<close> block ended with a response (no
  request threw), and \<open>isHtml\<close> accepts the response, that is its content type contains
  \<open>text/html\<close> or \<open>application/xhtml+xml\<close>. Otherwise neither the start of the task nor
  any of its responses changes the queue. When the three conditions hold for the response
  that ends the task, the queue grows by one child per extracted link.
\<close>

theorem recursion_conditions:
  "(\<not> (c_crawl opts \<and> (\<exists>res. outcome = Some res \<and> isHtml res)) \<longrightarrow>
      queue (crawl_response plat s opts ph outcome) = queue s \<and>
      (PageStart u \<in> set (events (crawl_response plat s opts ph outcome)) \<longrightarrow>
       PageStart u \<in> set (events s))) \<and>
   queue (crawl_start plat s opts) = queue s \<and>
   isHtml res' =
     (\<exists>c. content_type res' = Some c \<and>
          (sublist ''text/html'' c \<or> sublist ''application/xhtml+xml'' c)) \<and>
   (c_crawl opts \<longrightarrow> isHtml res' \<longrightarrow> res_status res' \<noteq> 405 \<longrightarrow>
    get_links plat (res_data res') (c_url opts) = Some urls \<longrightarrow>
      queue (crawl_response plat s opts ph (Some res')) =
        queue s @ map (child plat (checkOptions s) (c_url opts)) urls)"
proof -
  have html: "isHtml res' =
     (\<exists>c. content_type res' = Some c \<and>
          (sublist ''text/html'' c \<or> sublist ''application/xhtml+xml'' c))"
    by (cases "content_type res'") (simp_all add: isHtml_def contains_sublist)
  have rec: "queue (crawl_response plat s opts ph (Some res')) =
        queue s @ map (child plat (checkOptions s) (c_url opts)) urls"
    if "c_crawl opts" "isHtml res'" "res_status res' \<noteq> 405"
      "get_links plat (res_data res') (c_url opts) = Some urls"
    using finish_recursion[OF that(1,2,4)] that(3)
    by (cases ph) (simp_all add: crawl_response_def)
  from html rec show ?thesis
    using response_no_recursion[of opts outcome plat s ph u] start_queue[of plat s opts]
    by blast
qed

theorem recursion_conditions_witness:
  "c_crawl sample_root \<and> isHtml sample_page \<and> res_status sample_page \<noteq> 405 \<and>
   get_links string_platform (res_data sample_page) (c_url sample_root) =
     Some [''http://localhost:5000/a.html'', ''http://[bad''] \<and>
   length (queue (crawl_response string_platform (sample_s1\<lparr>pending := []\<rparr>) sample_root First
                    (Some sample_page))) = 2 \<and>
   \<not> c_crawl sample_probe \<and>
   queue (crawl_response sample_platform sample_s2 sample_probe First (Some sample_page)) =
     queue sample_s2"
proof -
  have h: "c_crawl sample_root" "isHtml sample_page" "res_status sample_page \<noteq> 405"
    "get_links string_platform (res_data sample_page) (c_url sample_root) =
       Some [''http://localhost:5000/a.html'', ''http://[bad'']"
    "\<not> c_crawl sample_probe"
    by (simp_all add: sample_root_def sample_page_def isHtml_def string_platform_def
        string_links_def sample_probe_def)
  have q: "queue (sample_s1\<lparr>pending := []\<rparr>) = []" by (simp add: sample_s1_value)
  show ?thesis
    using recursion_conditions[of sample_root "Some sample_page" string_platform
        "sample_s1\<lparr>pending := []\<rparr>" First "[]" sample_page
        "[''http://localhost:5000/a.html'', ''http://[bad'']"]
      recursion_conditions[of sample_probe "Some sample_page" sample_platform
        sample_s2 First "[]" sample_page "[]"]
      h q
    by simp
qed

section \<open>The decision to recurse into a link\<close>

lemma decide_cases:
  "(let crawl = (A \<and> B) in
     if crawl then
       (case x of None \<Rightarrow> crawl
        | Some p \<Rightarrow> (case y of None \<Rightarrow> crawl | Some q \<Rightarrow> crawl \<and> f p = f q))
     else crawl) =
   (A \<and> B \<and> (case x of None \<Rightarrow> True
              | Some p \<Rightarrow> (case y of None \<Rightarrow> True | Some q \<Rightarrow> f p = f q)))"
  by (cases A; cases B; cases x; cases y) simp_all

lemma should_crawl_eq:
  "should_crawl plat co u =
    (recurse co = Some True \<and> prefix (path co) u \<and>
     (case new_URL plat u of None \<Rightarrow> True
      | Some a \<Rightarrow>
          (case new_URL plat (path co) of None \<Rightarrow> True | Some b \<Rightarrow> host a = host b)))"
  unfolding should_crawl_def by (rule decide_cases)

text \<open>The decision is true only with \<open>recurse\<close> set and a candidate that starts with the
  path of the options; the hosts are compared only when both strings parse.\<close>

lemma should_crawl_only_if:
  "should_crawl plat co u \<Longrightarrow> recurse co = Some True \<and> prefix (path co) u"
  by (simp add: should_crawl_eq)

lemma should_crawl_hosts:
  "should_crawl plat co u \<Longrightarrow> new_URL plat u = Some cu \<Longrightarrow>
   new_URL plat (path co) = Some ru \<Longrightarrow> host cu = host ru"
  by (simp add: should_crawl_eq)

lemma should_crawl_other_host:
  "\<not> should_crawl sample_platform sample_co ''http://localhost:50001/''"
  by (simp add: should_crawl_eq sample_defs)


section \<open>Links that do not resolve\<close>

lemma getLinks_keeps_all:
  assumes "raw_links doc rules = Inr ls" "realBaseUrl resolve doc baseUrl = Inr b"
  shows "getLinks resolve doc baseUrl (Some rules) =
     Inr (map (\<lambda>l. parseLink resolve l b) (filter (\<lambda>l. l \<noteq> []) ls))"
  using assms by (simp add: getLinks_def)










section \<open>The options of a run\<close>

lemma setup_fields:
  assumes "check_setup rnd listens options = Inr co"
  shows "concurrency co = concurrency options" "port co = port options"
    "recurse co = recurse options"
    "path co =
      (if prefix ''http'' (path options) then path options
       else ''http://localhost:'' @
            decimal (case port options of None \<Rightarrow> 5000 + rnd
                     | Some n \<Rightarrow> if n = 0 then 5000 + rnd else n))"
  using assms by (auto simp: check_setup_def Let_def split: if_splits)

text \<open>
  C4, as the engine does it. \<open>check\<close> rewrites the options it is given before it seeds
  the queue: \<open>linksToSkip\<close> becomes the supplied patterns, if any, followed by the three
  built-in ones, and a \<open>path\<close> that does not start with \<open>http\<close> becomes the address of the
  local server. \<open>concurrency\<close>, \<open>port\<close> and \<open>recurse\<close> keep their values, and no step of
  the crawl changes the options any more.
\<close>

theorem options_during_crawl:
  assumes "check_setup rnd listens options = Inr co" "reachable plat co s"
  shows "checkOptions s = co \<and>
     concurrency co = concurrency options \<and> port co = port options \<and>
     recurse co = recurse options \<and>
     linksToSkip co =
       Some ((case linksToSkip options of None \<Rightarrow> [] | Some l \<Rightarrow> l) @
             [''^mailto:'', ''^irc:'', ''^data:'']) \<and>
     path co =
       (if prefix ''http'' (path options) then path options
        else ''http://localhost:'' @
             decimal (case port options of None \<Rightarrow> 5000 + rnd
                      | Some n \<Rightarrow> if n = 0 then 5000 + rnd else n))"
  using reachable_options[OF assms(2)] setup_fields[OF assms(1)] setup_skips[OF assms(1)]
  by (simp add: builtin_skips_def)

theorem options_during_crawl_witness:
  "check_setup 0 True sample_options = Inr sample_co \<and>
   reachable sample_platform sample_co sample_s2 \<and>
   checkOptions sample_s2 = sample_co \<and>
   linksToSkip sample_co = Some [''^mailto:'', ''^irc:'', ''^data:''] \<and>
   path sample_co = path sample_options"
proof -
  have h: "check_setup 0 True sample_options = Inr sample_co"
    by (simp add: check_setup_def sample_co_def sample_options_def)
  show ?thesis
    using options_during_crawl[OF h sample_s2_reachable] h sample_s2_reachable
    by (simp add: sample_options_def)
qed

theorem options_rewritten_counterexample:
  "check_setup 42 True sample_local =
     Inr \<lparr>concurrency = Some 5, port = None, path = ''http://localhost:5042'', recurse = None,
          linksToSkip = Some [''^ftp:'', ''^mailto:'', ''^irc:'', ''^data:'']\<rparr> \<and>
   path sample_local = ''docs'' \<and> linksToSkip sample_local = Some [''^ftp:'']"
  by (simp add: check_setup_def sample_local_def builtin_skips_def decimal.simps digit_def)

end
